theory Spec2Isabelle
  imports Main "HOL-Library.AList" "HOL-Library.Sublist"
begin

section \<open>Common: uncaught Python exceptions\<close>

text \<open>
  Neither script catches anything, so every exception ends the run.  The two that the
  modelled statements can raise on well-typed payloads are listed here.
\<close>

datatype error = IndexError | AttributeError | KeyError

section \<open>main.py: the match importer\<close>

subsection \<open>Payloads of the three endpoints\<close>

text \<open>
  A match object of the player-matches endpoint, with the seventeen keys that
  \<^verbatim>\<open>main.py\<close> reads.  \<^verbatim>\<open>match_id\<close> is a number and \<^verbatim>\<open>radiant_win\<close> a JSON boolean;
  the remaining columns are copied into the INSERT untouched, so they are kept as
  nullable numbers.
\<close>

record match =
  match_id :: int
  player_slot :: "int option"
  radiant_win :: bool
  duration :: "int option"
  game_mode :: "int option"
  lobby_type :: "int option"
  hero_id :: "int option"
  start_time :: "int option"
  version :: "int option"
  kills :: "int option"
  deaths :: "int option"
  assists :: "int option"
  skill :: "int option"
  average_rank :: "int option"
  leaver_status :: "int option"
  party_size :: "int option"

text \<open>One entry of \<^verbatim>\<open>matchinfo["players"]\<close> of the match-detail endpoint.\<close>

record player =
  isRadiant :: bool
  player_hero_id :: int

text \<open>One entry of the hero catalogue.\<close>

record hero =
  hero_ident :: int
  hero_name :: string
  localized_name :: string
  primary_attr :: string
  attack_type :: string

text \<open>
  The remote API is a parameter of the model: what the session returns for the two
  \<^verbatim>\<open>win\<close> filters, for a match identifier, and for the catalogue.
\<close>

record api =
  playermatches :: "int \<Rightarrow> match list"
  matchesinfo :: "int \<Rightarrow> player list"
  heroesinfo :: "hero list"

subsection \<open>Program state\<close>

text \<open>
  The three tables (each INSERT is committed at once, so the rows survive a later
  crash), the dictionary \<^verbatim>\<open>matchdict\<close> and the list \<^verbatim>\<open>heroidlist\<close>.  A Python dict
  keeps insertion order and an assignment to a present key keeps the key's position;
  that is \<^const>\<open>AList.update\<close> on an association list.
\<close>

type_synonym teammates_row = "int \<times> int \<times> int \<times> int \<times> int \<times> int"

record state =
  dotamatches :: "(int \<times> match) list"
  dotamatchesinfo :: "teammates_row list"
  heroestable :: "hero list"
  matchdict :: "(int \<times> bool) list"
  heroidlist :: "int list"

definition init_state :: state where
  "init_state = \<lparr>dotamatches = [], dotamatchesinfo = [], heroestable = [],
     matchdict = [], heroidlist = []\<rparr>"

definition wintype :: "int list" where
  "wintype = [1, 0]"

subsection \<open>First loop: match rows and team side (lines 20-44)\<close>

text \<open>
  The body of \<^verbatim>\<open>for match in matches\<close>.  Python adds the boolean to the integer as
  0 or 1, which is \<^const>\<open>of_bool\<close>.
\<close>

definition import_match :: "int \<Rightarrow> state \<Rightarrow> match \<Rightarrow> state" where
  "import_match winnumber st m =
     (let st1 = st\<lparr>dotamatches := dotamatches st @ [(winnumber, m)]\<rparr>
      in if winnumber + of_bool (radiant_win m) = 1
         then st1\<lparr>matchdict := AList.update (match_id m) False (matchdict st1)\<rparr>
         else st1\<lparr>matchdict := AList.update (match_id m) True (matchdict st1)\<rparr>)"

definition import_matches :: "api \<Rightarrow> state \<Rightarrow> int \<Rightarrow> state" where
  "import_matches a st winnumber = foldl (import_match winnumber) st (playermatches a winnumber)"

definition import_all :: "api \<Rightarrow> state \<Rightarrow> state" where
  "import_all a st = foldl (import_matches a) st wintype"

subsection \<open>Second loop: team mates of every match (lines 47-68)\<close>

text \<open>
  \<^verbatim>\<open>heroidlist[0] .. heroidlist[4]\<close>: an index past the end raises, further elements
  are not read.
\<close>

fun first_five :: "int list \<Rightarrow> error + (int \<times> int \<times> int \<times> int \<times> int)" where
  "first_five (h0 # h1 # h2 # h3 # h4 # rest) = Inr (h0, h1, h2, h3, h4)"
| "first_five hs = Inl IndexError"

text \<open>
  The body of \<^verbatim>\<open>for mID, team in matchdict.items()\<close>.  \<^verbatim>\<open>is\<close> on two booleans is
  equality.
\<close>

definition collect_heroes :: "bool \<Rightarrow> player list \<Rightarrow> int list \<Rightarrow> int list" where
  "collect_heroes team players hs =
     foldl (\<lambda>acc p. if isRadiant p = team then acc @ [player_hero_id p] else acc) hs players"

definition teammates_step :: "api \<Rightarrow> state \<Rightarrow> int \<times> bool \<Rightarrow> error + state" where
  "teammates_step a st item =
     (case item of (mID, team) \<Rightarrow>
        let hs = collect_heroes team (matchesinfo a mID) (heroidlist st)
        in case first_five hs of
             Inl e \<Rightarrow> Inl e
           | Inr five \<Rightarrow>
               Inr (st\<lparr>dotamatchesinfo := dotamatchesinfo st @ [(mID, five)], heroidlist := []\<rparr>))"

text \<open>
  The loop stops at the first exception.  The result is the exception, if any, together
  with the state as last committed.
\<close>

fun teammates_loop :: "api \<Rightarrow> (int \<times> bool) list \<Rightarrow> state \<Rightarrow> error option \<times> state" where
  "teammates_loop a [] st = (None, st)"
| "teammates_loop a (item # items) st =
     (case teammates_step a st item of
        Inl e \<Rightarrow> (Some e, st)
      | Inr st' \<Rightarrow> teammates_loop a items st')"

definition fetch_teammates :: "api \<Rightarrow> state \<Rightarrow> error option \<times> state" where
  "fetch_teammates a st = teammates_loop a (matchdict st) (st\<lparr>heroidlist := []\<rparr>)"

subsection \<open>Third loop: the hero catalogue (lines 72-83)\<close>

definition import_heroes :: "api \<Rightarrow> state \<Rightarrow> state" where
  "import_heroes a st = foldl (\<lambda>s h. s\<lparr>heroestable := heroestable s @ [h]\<rparr>) st (heroesinfo a)"

subsection \<open>The whole script\<close>

definition main :: "api \<Rightarrow> error option \<times> state" where
  "main a =
     (case fetch_teammates a (import_all a init_state) of
        (Some e, st) \<Rightarrow> (Some e, st)
      | (None, st) \<Rightarrow> (None, import_heroes a st))"

subsection \<open>Specification-side notions and a sample run\<close>

text \<open>
  The hero identifiers of the players on a given side, in the order of the detail's
  player list: what the specification asks the team-mates record to hold.
\<close>

definition side_heroes :: "api \<Rightarrow> int \<times> bool \<Rightarrow> int list" where
  "side_heroes a item =
     (case item of (mID, team) \<Rightarrow>
        map player_hero_id (filter (\<lambda>p. isRadiant p = team) (matchesinfo a mID)))"

text \<open>The row that one iteration of the second loop inserts, or the exception it raises.\<close>

definition teammates_row_of :: "api \<Rightarrow> int \<times> bool \<Rightarrow> error + teammates_row" where
  "teammates_row_of a item =
     (case first_five (side_heroes a item) of Inl e \<Rightarrow> Inl e | Inr five \<Rightarrow> Inr (fst item, five))"

text \<open>The rows that the second loop inserts before it ends or raises.\<close>

fun inserted :: "api \<Rightarrow> (int \<times> bool) list \<Rightarrow> teammates_row list" where
  "inserted a [] = []"
| "inserted a (item # items) =
     (case teammates_row_of a item of Inl e \<Rightarrow> [] | Inr row \<Rightarrow> row # inserted a items)"

text \<open>A won match on the radiant side, its ten players, and an API that serves just that.\<close>

definition example_match :: match where
  "example_match = \<lparr>match_id = 7, player_slot = Some 0, radiant_win = True, duration = Some 1800,
     game_mode = Some 22, lobby_type = Some 7, hero_id = Some 1, start_time = Some 0,
     version = None, kills = Some 3, deaths = Some 2, assists = Some 1, skill = None,
     average_rank = Some 55, leaver_status = Some 0, party_size = Some 1\<rparr>"

definition example_players :: "player list" where
  "example_players =
     [\<lparr>isRadiant = True, player_hero_id = 1\<rparr>, \<lparr>isRadiant = True, player_hero_id = 2\<rparr>,
      \<lparr>isRadiant = False, player_hero_id = 11\<rparr>, \<lparr>isRadiant = True, player_hero_id = 3\<rparr>,
      \<lparr>isRadiant = False, player_hero_id = 12\<rparr>, \<lparr>isRadiant = False, player_hero_id = 13\<rparr>,
      \<lparr>isRadiant = True, player_hero_id = 4\<rparr>, \<lparr>isRadiant = False, player_hero_id = 14\<rparr>,
      \<lparr>isRadiant = True, player_hero_id = 5\<rparr>, \<lparr>isRadiant = False, player_hero_id = 15\<rparr>]"

definition example_api :: api where
  "example_api = \<lparr>playermatches = (\<lambda>w. if w = 1 then [example_match] else []),
     matchesinfo = (\<lambda>mID. if mID = 7 then example_players else []),
     heroesinfo = []\<rparr>"

section \<open>webscrape.py: the role scraper\<close>

subsection \<open>Python strings\<close>

text \<open>
  A Python \<^verbatim>\<open>str\<close> is a sequence of Unicode code points, so a string is a list of
  numbers; \<^verbatim>\<open>ustr\<close> embeds an ASCII literal.  The marker glyph of line 17 is U+25A0.
\<close>

type_synonym ustring = "nat list"

definition ustr :: "string \<Rightarrow> ustring" where
  "ustr s = map of_char s"

definition glyph :: nat where
  "glyph = 9632"

text \<open>The code points that \<^verbatim>\<open>str.strip()\<close> without argument removes.\<close>

definition isspace :: "nat \<Rightarrow> bool" where
  "isspace c \<longleftrightarrow>
     (9 \<le> c \<and> c \<le> 13) \<or> (28 \<le> c \<and> c \<le> 32) \<or> c = 133 \<or> c = 160 \<or> c = 5760 \<or>
     (8192 \<le> c \<and> c \<le> 8202) \<or> c = 8232 \<or> c = 8233 \<or> c = 8239 \<or> c = 8287 \<or> c = 12288"

text \<open>
  \<^verbatim>\<open>s.count(sub)\<close>: the number of non-overlapping occurrences, scanning from the left.
\<close>

function py_count :: "'a list \<Rightarrow> 'a list \<Rightarrow> int" where
  "py_count s sub =
     (if sub = [] then int (length s) + 1
      else if s = [] then 0
      else if prefix sub s then 1 + py_count (drop (length sub) s) sub
      else py_count (tl s) sub)"
  by pat_completeness auto
termination
  by (relation "measure (\<lambda>(s, sub). length s)") auto

declare py_count.simps [simp del]

text \<open>\<^verbatim>\<open>s.replace(old, new)\<close>: every non-overlapping occurrence, from the left.\<close>

function py_replace :: "'a list \<Rightarrow> 'a list \<Rightarrow> 'a list \<Rightarrow> 'a list" where
  "py_replace s old new =
     (if old = [] then new @ concat (map (\<lambda>c. c # new) s)
      else if s = [] then []
      else if prefix old s then new @ py_replace (drop (length old) s) old new
      else hd s # py_replace (tl s) old new)"
  by pat_completeness auto
termination
  by (relation "measure (\<lambda>(s, old, new). length s)") auto

declare py_replace.simps [simp del]

definition py_strip :: "ustring \<Rightarrow> ustring" where
  "py_strip s = rev (dropWhile isspace (rev (dropWhile isspace s)))"

subsection \<open>The parsed page\<close>

text \<open>
  What the loop of line 13 reads of one \<^verbatim>\<open>th\<close> element: its text, and the next \<^verbatim>\<open>td\<close>
  in document order (\<^verbatim>\<open>find_next\<close> gives \<^verbatim>\<open>None\<close> when there is none) as the list of
  its \<^verbatim>\<open>a\<close> elements, each with its \<^verbatim>\<open>title\<close> attribute if it has one.  The page is the
  list of its \<^verbatim>\<open>th\<close> elements in document order, as \<^verbatim>\<open>find_all\<close> returns them.
\<close>

record th =
  get_text :: ustring
  find_next_td :: "ustring option list option"

subsection \<open>First loop: the dictionary heroattributes (lines 10-30)\<close>

type_synonym levels = "(int \<times> ustring list) list"
type_synonym attributes = "(ustring \<times> levels) list"

definition level_of :: "ustring \<Rightarrow> int" where
  "level_of rolestring = py_count rolestring [glyph]"

definition role_of :: "ustring \<Rightarrow> ustring" where
  "role_of rolestring = py_strip (py_replace rolestring [glyph] [])"

text \<open>Lines 21-25.\<close>

definition capture :: "ustring \<Rightarrow> int \<Rightarrow> attributes \<Rightarrow> attributes" where
  "capture role level heroattributes =
     (if role \<in> fst ` set heroattributes
      then AList.map_entry role (AList.update level []) heroattributes
      else AList.update role [(level, [])] heroattributes)"

text \<open>Line 30; both keys are present when it runs.\<close>

definition add_hero :: "ustring \<Rightarrow> int \<Rightarrow> ustring \<Rightarrow> attributes \<Rightarrow> attributes" where
  "add_hero role level heroname heroattributes =
     AList.map_entry role (AList.map_entry level (\<lambda>hs. hs @ [heroname])) heroattributes"

text \<open>Lines 28-30; \<^verbatim>\<open>hero["title"]\<close> raises on a link without title.\<close>

fun add_heroes :: "ustring \<Rightarrow> int \<Rightarrow> ustring option list \<Rightarrow> attributes \<Rightarrow> error + attributes" where
  "add_heroes role level [] heroattributes = Inr heroattributes"
| "add_heroes role level (None # links) heroattributes = Inl KeyError"
| "add_heroes role level (Some heroname # links) heroattributes =
     add_heroes role level links (add_hero role level heroname heroattributes)"

definition roleheader_step :: "attributes \<Rightarrow> th \<Rightarrow> error + attributes" where
  "roleheader_step heroattributes roleheader =
     (let rolestring = get_text roleheader;
          level = level_of rolestring;
          role = role_of rolestring;
          captured = capture role level heroattributes
      in case find_next_td roleheader of
           None \<Rightarrow> Inl AttributeError
         | Some links \<Rightarrow> add_heroes role level links captured)"

fun scan_headers :: "attributes \<Rightarrow> th list \<Rightarrow> error + attributes" where
  "scan_headers heroattributes [] = Inr heroattributes"
| "scan_headers heroattributes (roleheader # rest) =
     (case roleheader_step heroattributes roleheader of
        Inl e \<Rightarrow> Inl e
      | Inr heroattributes' \<Rightarrow> scan_headers heroattributes' rest)"

subsection \<open>Second loop: the list of rows (lines 33-50)\<close>

text \<open>A row is a dict from column name to a string (the hero) or a number (a level).\<close>

datatype pyval = Str ustring | Num int

type_synonym dfrow = "(ustring \<times> pyval) list"

definition Hero :: ustring where
  "Hero = ustr ''Hero''"

text \<open>
  Lines 43-50 for one hero: the first row whose \<^verbatim>\<open>"Hero"\<close> entry equals the name gets
  \<^verbatim>\<open>dfrow[role] = level\<close>; without such a row the dict display
  \<^verbatim>\<open>{"Hero": hero, role: level}\<close> is appended (a repeated key keeps the later value).
\<close>

fun place_hero :: "ustring \<Rightarrow> int \<Rightarrow> dfrow list \<Rightarrow> ustring \<Rightarrow> dfrow list" where
  "place_hero role level [] hero = [AList.update role (Num level) [(Hero, Str hero)]]"
| "place_hero role level (dfrow # rest) hero =
     (if map_of dfrow Hero = Some (Str hero)
      then AList.update role (Num level) dfrow # rest
      else dfrow # place_hero role level rest hero)"

definition pivot_level :: "ustring \<Rightarrow> dfrow list \<Rightarrow> int \<times> ustring list \<Rightarrow> dfrow list" where
  "pivot_level role dfheroattributes entry =
     (case entry of (level, heroes) \<Rightarrow> foldl (place_hero role level) dfheroattributes heroes)"

definition pivot_role :: "dfrow list \<times> ustring list \<Rightarrow> ustring \<times> levels \<Rightarrow> dfrow list \<times> ustring list" where
  "pivot_role st entry =
     (case (st, entry) of ((dfheroattributes, totalrolelist), (role, lvls)) \<Rightarrow>
        (foldl (pivot_level role) dfheroattributes lvls, totalrolelist @ [role]))"

definition pivot :: "attributes \<Rightarrow> dfrow list \<times> ustring list" where
  "pivot heroattributes = foldl pivot_role ([], []) heroattributes"

subsection \<open>Third loop: zeros for the missing roles (lines 53-56)\<close>

definition fill_row :: "ustring \<Rightarrow> dfrow \<Rightarrow> dfrow" where
  "fill_row role dfrow =
     (if role \<in> fst ` set dfrow then dfrow else AList.update role (Num 0) dfrow)"

definition fill :: "ustring list \<Rightarrow> dfrow list \<Rightarrow> dfrow list" where
  "fill totalrolelist dfheroattributes =
     foldl (\<lambda>rows role. map (fill_row role) rows) dfheroattributes totalrolelist"

text \<open>The rows as handed to \<^verbatim>\<open>pd.DataFrame\<close> on line 59, or the exception that ended the run.\<close>

definition pivoted :: "th list \<Rightarrow> error + dfrow list" where
  "pivoted page =
     (case scan_headers [] page of
        Inl e \<Rightarrow> Inl e
      | Inr heroattributes \<Rightarrow>
          (case pivot heroattributes of
             (dfheroattributes, totalrolelist) \<Rightarrow> Inr (fill totalrolelist dfheroattributes)))"

subsection \<open>Export (lines 59-60)\<close>

text \<open>
  pandas is a library outside the repository.  For a list of dicts, \<^verbatim>\<open>pd.DataFrame\<close>
  takes as columns the keys in the order of their first appearance, going through the
  rows in order (pandas 0.25 and later, where dicts keep insertion order), and
  \<^verbatim>\<open>to_csv(index=False)\<close> writes the column names as the header line and then one line
  per row, with an empty field where a row lacks the key.
\<close>

definition add_column :: "ustring list \<Rightarrow> ustring \<Rightarrow> ustring list" where
  "add_column cols k = (if k \<in> set cols then cols else cols @ [k])"

definition DataFrame_columns :: "dfrow list \<Rightarrow> ustring list" where
  "DataFrame_columns rows = foldl add_column [] (concat (map (map fst) rows))"

record csv =
  header :: "ustring list"
  lines :: "pyval option list list"

definition to_csv :: "dfrow list \<Rightarrow> csv" where
  "to_csv rows =
     (let cols = DataFrame_columns rows
      in \<lparr>header = cols, lines = map (\<lambda>row. map (map_of row) cols) rows\<rparr>)"

definition webscrape :: "th list \<Rightarrow> error + csv" where
  "webscrape page = (case pivoted page of Inl e \<Rightarrow> Inl e | Inr rows \<Rightarrow> Inr (to_csv rows))"

subsection \<open>Specification-side notions\<close>

text \<open>The exception, if any, that the loop body raises on a header cell.\<close>

definition header_error :: "th \<Rightarrow> error option" where
  "header_error roleheader =
     (case find_next_td roleheader of
        None \<Rightarrow> Some AttributeError
      | Some links \<Rightarrow> if None \<in> set links then Some KeyError else None)"

definition first_error :: "th list \<Rightarrow> error option" where
  "first_error page = (case List.map_filter header_error page of [] \<Rightarrow> None | e # es \<Rightarrow> Some e)"

text \<open>The hero names linked in the data cell that follows a header cell.\<close>

definition linked :: "th \<Rightarrow> ustring list" where
  "linked roleheader =
     (case find_next_td roleheader of None \<Rightarrow> [] | Some links \<Rightarrow> List.map_filter (\<lambda>t. t) links)"

text \<open>\<^verbatim>\<open>heroattributes[role]\<close>, empty for a role not yet seen.\<close>

definition levels_for :: "attributes \<Rightarrow> ustring \<Rightarrow> levels" where
  "levels_for heroattributes role = (case map_of heroattributes role of None \<Rightarrow> [] | Some lvls \<Rightarrow> lvls)"

text \<open>The effect of one header cell on the dictionary: its list replaces the entry of its role and level.\<close>

definition store :: "ustring \<Rightarrow> int \<Rightarrow> ustring list \<Rightarrow> attributes \<Rightarrow> attributes" where
  "store role level heroes heroattributes =
     AList.update role (AList.update level heroes (levels_for heroattributes role)) heroattributes"

definition store_header :: "attributes \<Rightarrow> th \<Rightarrow> attributes" where
  "store_header heroattributes roleheader =
     store (role_of (get_text roleheader)) (level_of (get_text roleheader)) (linked roleheader)
       heroattributes"

text \<open>\<^verbatim>\<open>heroattributes[role][level]\<close>, if both keys are present.\<close>

definition heroes_at :: "attributes \<Rightarrow> ustring \<Rightarrow> int \<Rightarrow> ustring list option" where
  "heroes_at heroattributes role level = map_of (levels_for heroattributes role) level"


text \<open>Sample pages: a header cell followed by a data cell whose links all carry a title.\<close>

definition header_cell :: "ustring \<Rightarrow> ustring list \<Rightarrow> th" where
  "header_cell text names = \<lparr>get_text = text, find_next_td = Some (map Some names)\<rparr>"

definition carry :: "nat \<Rightarrow> ustring" where
  "carry n = ustr ''Carry '' @ replicate n glyph"

text \<open>
  The associations (role, level, hero) of a dictionary in the order in which the three nested
  loops of lines 36-41 visit them.
\<close>

definition triples :: "attributes \<Rightarrow> (ustring \<times> int \<times> ustring) list" where
  "triples heroattributes =
     concat (map (\<lambda>(role, lvls).
       concat (map (\<lambda>(level, heroes). map (\<lambda>hero. (role, level, hero)) heroes) lvls))
       heroattributes)"

definition place :: "dfrow list \<Rightarrow> ustring \<times> int \<times> ustring \<Rightarrow> dfrow list" where
  "place rows t = (case t of (role, level, hero) \<Rightarrow> place_hero role level rows hero)"

text \<open>The \<^verbatim>\<open>"Hero"\<close> entry of a row, and the first row of a hero as line 45 finds it.\<close>

definition hero_key :: "dfrow \<Rightarrow> pyval option" where
  "hero_key dfrow = map_of dfrow Hero"

definition row_of :: "dfrow list \<Rightarrow> ustring \<Rightarrow> dfrow option" where
  "row_of rows hero = find (\<lambda>dfrow. hero_key dfrow = Some (Str hero)) rows"

text \<open>The row of a hero after a list of associations: one assignment per association of that hero.\<close>

definition assign :: "ustring \<Rightarrow> dfrow \<Rightarrow> ustring \<times> int \<times> ustring \<Rightarrow> dfrow" where
  "assign hero dfrow t =
     (case t of (role, level, hero') \<Rightarrow>
        if hero' = hero then AList.update role (Num level) dfrow else dfrow)"

definition row_content :: "(ustring \<times> int \<times> ustring) list \<Rightarrow> ustring \<Rightarrow> dfrow" where
  "row_content ts hero = foldl (assign hero) [(Hero, Str hero)] ts"

text \<open>The level of the last association of a hero with a role, if there is one.\<close>

definition last_level :: "(ustring \<times> int \<times> ustring) list \<Rightarrow> ustring \<Rightarrow> ustring \<Rightarrow> int option" where
  "last_level ts role hero =
     foldl (\<lambda>v t. case t of (role', level, hero') \<Rightarrow>
        if hero' = hero \<and> role' = role then Some level else v) None ts"

text \<open>The third loop on one row.\<close>

definition fill_all :: "ustring list \<Rightarrow> dfrow \<Rightarrow> dfrow" where
  "fill_all totalrolelist dfrow = foldl (\<lambda>row role. fill_row role row) dfrow totalrolelist"

text \<open>The level of the last entry of a role's dict that lists a hero, if there is one.\<close>

definition level_in :: "levels \<Rightarrow> ustring \<Rightarrow> int option" where
  "level_in lvls hero =
     foldl (\<lambda>v e. case e of (level, heroes) \<Rightarrow> if hero \<in> set heroes then Some level else v) None lvls"

section \<open>Properties of the match importer\<close>

subsection \<open>Team side\<close>

lemma matchdict_import_match:
  "matchdict (import_match w st m) =
     AList.update (match_id m) (w + of_bool (radiant_win m) \<noteq> 1) (matchdict st)"
  by (simp add: import_match_def Let_def)

text \<open>
  C1, as stated: the side recorded for a match is radiant exactly when outcome value plus
  radiant-won flag is odd.  It fails for a won match that radiant won: the sum is 2, and
  the side recorded is radiant.
\<close>

theorem side_odd_sum_counterexample:
  "\<not> (map_of (matchdict (import_match 1 init_state example_match)) (match_id example_match)
          = Some True
        \<longleftrightarrow> odd ((1::int) + of_bool (radiant_win example_match)))"
  by (simp add: matchdict_import_match AList.update_conv' example_match_def)

text \<open>
  C1, amended: for both outcome values the side recorded for a match is radiant exactly
  when outcome value plus radiant-won flag is even, that is when "player won" and
  "radiant won" are both true or both false.
\<close>

theorem side_even_sum:
  "winnumber \<in> set wintype \<Longrightarrow>
     map_of (matchdict (import_match winnumber st m)) (match_id m)
       = Some (even (winnumber + of_bool (radiant_win m)))"
  by (auto simp add: matchdict_import_match AList.update_conv' wintype_def)

theorem side_even_sum_witness:
  "(1::int) \<in> set wintype \<and>
   map_of (matchdict (import_match 1 init_state example_match)) (match_id example_match) = Some True"
  using side_even_sum [of 1 init_state example_match]
  by (simp add: wintype_def example_match_def)

text \<open>
  C2: the truth table of the recorded side.  Won and radiant won: radiant; won and radiant
  lost: dire; lost and radiant won: dire; lost and radiant lost: radiant.
\<close>

theorem side_truth_table:
  "map_of (matchdict (import_match 1 st (m\<lparr>radiant_win := True\<rparr>))) (match_id m) = Some True \<and>
   map_of (matchdict (import_match 1 st (m\<lparr>radiant_win := False\<rparr>))) (match_id m) = Some False \<and>
   map_of (matchdict (import_match 0 st (m\<lparr>radiant_win := True\<rparr>))) (match_id m) = Some False \<and>
   map_of (matchdict (import_match 0 st (m\<lparr>radiant_win := False\<rparr>))) (match_id m) = Some True"
  by (simp add: matchdict_import_match AList.update_conv')

subsection \<open>Team mates\<close>

lemma collect_heroes_eq:
  "collect_heroes team ps hs = hs @ map player_hero_id (filter (\<lambda>p. isRadiant p = team) ps)"
  unfolding collect_heroes_def by (induction ps arbitrary: hs) simp_all

lemma teammates_step_eq:
  "heroidlist st = [] \<Longrightarrow>
   teammates_step a st item =
     (case teammates_row_of a item of
        Inl e \<Rightarrow> Inl e
      | Inr row \<Rightarrow> Inr (st\<lparr>dotamatchesinfo := dotamatchesinfo st @ [row], heroidlist := []\<rparr>))"
  by (cases item)
     (simp add: teammates_step_def teammates_row_of_def side_heroes_def collect_heroes_eq
        split: sum.splits)

lemma teammates_loop_rows:
  "heroidlist st = [] \<Longrightarrow>
     dotamatchesinfo (snd (teammates_loop a items st)) = dotamatchesinfo st @ inserted a items \<and>
     matchdict (snd (teammates_loop a items st)) = matchdict st \<and>
     (fst (teammates_loop a items st) = None \<longrightarrow> length (inserted a items) = length items)"
proof (induction items arbitrary: st)
  case Nil
  then show ?case by simp
next
  case (Cons item items)
  show ?case
  proof (cases "teammates_row_of a item")
    case (Inl e)
    then show ?thesis using Cons.prems by (simp add: teammates_step_eq)
  next
    case (Inr row)
    let ?st = "st\<lparr>dotamatchesinfo := dotamatchesinfo st @ [row], heroidlist := []\<rparr>"
    have step: "teammates_loop a (item # items) st = teammates_loop a items ?st"
      using Inr Cons.prems by (simp add: teammates_step_eq)
    have "heroidlist ?st = []" by simp
    from Cons.IH [OF this] show ?thesis
      unfolding step using Inr by simp
  qed
qed

lemma inserted_keys:
  "map fst (inserted a items) = take (length (inserted a items)) (map fst items)"
proof (induction items)
  case Nil
  then show ?case by simp
next
  case (Cons item items)
  then show ?case
    by (cases "teammates_row_of a item")
       (auto simp add: teammates_row_of_def split: sum.splits)
qed

lemma inserted_origin:
  "row \<in> set (inserted a items) \<Longrightarrow> \<exists>item \<in> set items. teammates_row_of a item = Inr row"
proof (induction items)
  case Nil
  then show ?case by simp
next
  case (Cons item items)
  then show ?case
    by (cases "teammates_row_of a item") auto
qed

lemma filter_key_distinct:
  "distinct (map fst xs) \<Longrightarrow> (k, v) \<in> set xs \<Longrightarrow> filter (\<lambda>r. fst r = k) xs = [(k, v)]"
proof (induction xs)
  case Nil
  then show ?case by simp
next
  case (Cons x xs)
  show ?case
  proof (cases "fst x = k")
    case True
    then have "k \<notin> fst ` set xs" using Cons.prems(1) by auto
    then have "filter (\<lambda>r. fst r = k) xs = []"
      by (auto simp add: filter_empty_conv)
    moreover have "x = (k, v)"
      using True Cons.prems \<open>k \<notin> fst ` set xs\<close> by (cases x) force
    ultimately show ?thesis by simp
  next
    case False
    then show ?thesis using Cons by auto
  qed
qed

lemma import_match_other:
  "dotamatchesinfo (import_match w st m) = dotamatchesinfo st"
  "heroestable (import_match w st m) = heroestable st"
  by (simp_all add: import_match_def Let_def)

lemma import_matches_inv:
  "dotamatchesinfo (foldl (import_match w) st ms) = dotamatchesinfo st \<and>
   (distinct (map fst (matchdict st)) \<longrightarrow>
      distinct (map fst (matchdict (foldl (import_match w) st ms))))"
  by (induction ms arbitrary: st)
     (simp_all add: import_match_other matchdict_import_match AList.distinct_update)

lemma import_all_inv:
  "dotamatchesinfo (import_all a init_state) = [] \<and>
   distinct (map fst (matchdict (import_all a init_state)))"
proof -
  have "dotamatchesinfo (foldl (import_matches a) st ws) = dotamatchesinfo st \<and>
        (distinct (map fst (matchdict st)) \<longrightarrow>
           distinct (map fst (matchdict (foldl (import_matches a) st ws))))" for st ws
    by (induction ws arbitrary: st) (simp_all add: import_matches_def import_matches_inv)
  from this [of init_state wintype] show ?thesis
    by (simp add: import_all_def init_state_def)
qed

lemma import_heroes_other:
  "dotamatchesinfo (import_heroes a st) = dotamatchesinfo st"
  "matchdict (import_heroes a st) = matchdict st"
proof -
  have "dotamatchesinfo (foldl (\<lambda>s h. s\<lparr>heroestable := heroestable s @ [h]\<rparr>) st hs) = dotamatchesinfo st \<and>
        matchdict (foldl (\<lambda>s h. s\<lparr>heroestable := heroestable s @ [h]\<rparr>) st hs) = matchdict st" for hs
    by (induction hs arbitrary: st) simp_all
  then show "dotamatchesinfo (import_heroes a st) = dotamatchesinfo st"
    "matchdict (import_heroes a st) = matchdict st"
    by (simp_all add: import_heroes_def)
qed

lemma main_unfold:
  "fst (main a) = fst (fetch_teammates a (import_all a init_state))"
  "matchdict (snd (main a)) = matchdict (snd (fetch_teammates a (import_all a init_state)))"
  "dotamatchesinfo (snd (main a)) = dotamatchesinfo (snd (fetch_teammates a (import_all a init_state)))"
proof -
  obtain e st where r: "fetch_teammates a (import_all a init_state) = (e, st)"
    by (cases "fetch_teammates a (import_all a init_state)")
  show "fst (main a) = fst (fetch_teammates a (import_all a init_state))"
    by (cases e) (simp_all add: main_def r)
  show "matchdict (snd (main a)) = matchdict (snd (fetch_teammates a (import_all a init_state)))"
    by (cases e) (simp_all add: main_def r import_heroes_other)
  show "dotamatchesinfo (snd (main a)) = dotamatchesinfo (snd (fetch_teammates a (import_all a init_state)))"
    by (cases e) (simp_all add: main_def r import_heroes_other)
qed

lemma main_tables:
  "distinct (map fst (matchdict (snd (main a))))"
  "dotamatchesinfo (snd (main a)) = inserted a (matchdict (snd (main a)))"
  "fst (main a) = None \<Longrightarrow>
     length (dotamatchesinfo (snd (main a))) = length (matchdict (snd (main a)))"
proof -
  define st0 where "st0 = import_all a init_state"
  define st1 where "st1 = st0\<lparr>heroidlist := []\<rparr>"
  have h: "heroidlist st1 = []" by (simp add: st1_def)
  have e: "dotamatchesinfo st1 = []"
    using import_all_inv [of a] by (simp add: st1_def st0_def)
  have m: "matchdict st1 = matchdict st0"
    by (simp add: st1_def)
  have d: "distinct (map fst (matchdict st0))"
    using import_all_inv [of a] by (simp add: st0_def)
  have ft: "fetch_teammates a (import_all a init_state) = teammates_loop a (matchdict st0) st1"
    by (simp add: fetch_teammates_def st1_def st0_def)
  note loop = teammates_loop_rows [OF h, of a "matchdict st0"]
  have md: "matchdict (snd (main a)) = matchdict st0"
    using loop m by (simp add: main_unfold ft)
  show "distinct (map fst (matchdict (snd (main a))))"
    using d by (simp add: md)
  show di: "dotamatchesinfo (snd (main a)) = inserted a (matchdict (snd (main a)))"
    using loop e by (simp add: md main_unfold(3) ft)
  show "length (dotamatchesinfo (snd (main a))) = length (matchdict (snd (main a)))"
    if "fst (main a) = None"
    using loop that unfolding di by (simp add: md main_unfold(1) ft)
qed

text \<open>
  C3: for a match identifier of \<^verbatim>\<open>matchdict\<close> whose detail lists exactly five players on
  the derived side, the team-mates row inserted for it holds those five players' hero
  identifiers in the order of the player list, and no other row is inserted for it.  The
  row exists whenever the identifier was reached, which is the case in every run that
  ends without exception.
\<close>

theorem teammates_row_five:
  assumes "(mID, team) \<in> set (matchdict (snd (main a)))"
      and "side_heroes a (mID, team) = [h1, h2, h3, h4, h5]"
  shows "(mID \<in> fst ` set (dotamatchesinfo (snd (main a))) \<longrightarrow>
            filter (\<lambda>row. fst row = mID) (dotamatchesinfo (snd (main a))) = [(mID, h1, h2, h3, h4, h5)]) \<and>
         (fst (main a) = None \<longrightarrow> mID \<in> fst ` set (dotamatchesinfo (snd (main a))))"
proof -
  define items where "items = matchdict (snd (main a))"
  define new where "new = dotamatchesinfo (snd (main a))"
  have d: "distinct (map fst items)"
    using main_tables(1) [of a] by (simp add: items_def)
  have ins: "new = inserted a items"
    using main_tables(2) [of a] by (simp add: items_def new_def)
  have keys: "map fst new = take (length new) (map fst items)"
    unfolding ins by (rule inserted_keys)
  have mem: "(mID, team) \<in> set items" using assms(1) by (simp add: items_def)
  have dn: "distinct (map fst new)"
    using d distinct_take [of "map fst items" "length new"] by (simp add: keys [symmetric])
  have row: "teammates_row_of a (mID, team) = Inr (mID, h1, h2, h3, h4, h5)"
    using assms(2) by (simp add: teammates_row_of_def)
  have only: "r = (mID, h1, h2, h3, h4, h5)" if "r \<in> set new" "fst r = mID" for r
  proof -
    from that(1) inserted_origin [of r a items] obtain item
      where item: "item \<in> set items" "teammates_row_of a item = Inr r"
      unfolding ins by blast
    have "fst item = mID"
      using that(2) item(2) by (auto simp add: teammates_row_of_def split: sum.splits)
    then have "(mID, snd item) \<in> set items" using item(1) by (cases item) simp
    from eq_key_imp_eq_value [OF d this mem] \<open>fst item = mID\<close>
    have "item = (mID, team)" by (cases item) simp
    then show ?thesis using item(2) row by simp
  qed
  have a1: "filter (\<lambda>row. fst row = mID) new = [(mID, h1, h2, h3, h4, h5)]"
    if "mID \<in> fst ` set new"
  proof -
    from that obtain r where "r \<in> set new" "fst r = mID" by auto
    then have "(mID, h1, h2, h3, h4, h5) \<in> set new" using only by auto
    with dn show ?thesis by (rule filter_key_distinct)
  qed
  have a2: "mID \<in> fst ` set new" if "fst (main a) = None"
  proof -
    have "length new = length items"
      using main_tables(3) [OF that] by (simp add: new_def items_def)
    then have "map fst new = map fst items" using keys by simp
    then have "set (map fst new) = set (map fst items)" by simp
    then have "fst ` set new = fst ` set items" by simp
    then show ?thesis using mem by force
  qed
  show ?thesis using a1 a2 unfolding new_def by blast
qed

lemma ex_import: "import_all example_api init_state =
   \<lparr>dotamatches = [(1, example_match)], dotamatchesinfo = [], heroestable = [],
     matchdict = [(7, True)], heroidlist = []\<rparr>"
  by (simp add: import_all_def import_matches_def wintype_def example_api_def import_match_def
        init_state_def Let_def example_match_def)

lemma ex_side: "side_heroes example_api (7, True) = [1, 2, 3, 4, 5]"
  by (simp add: side_heroes_def example_api_def example_players_def)

lemma ex_main_md: "matchdict (snd (main example_api)) = [(7, True)]"
  by (simp add: main_unfold fetch_teammates_def ex_import teammates_step_eq teammates_row_of_def ex_side)

lemma ex_main_ok: "fst (main example_api) = None"
  by (simp add: main_unfold fetch_teammates_def ex_import teammates_step_eq teammates_row_of_def ex_side)

theorem teammates_row_five_witness:
  "(7, True) \<in> set (matchdict (snd (main example_api))) \<and>
   side_heroes example_api (7, True) = [1, 2, 3, 4, 5] \<and>
   filter (\<lambda>row. fst row = 7) (dotamatchesinfo (snd (main example_api))) = [(7, 1, 2, 3, 4, 5)]"
proof -
  have h1: "(7, True) \<in> set (matchdict (snd (main example_api)))"
    by (simp add: ex_main_md)
  show ?thesis
    using teammates_row_five [OF h1 ex_side] h1 ex_side ex_main_ok by simp
qed

section \<open>Properties of the role scraper\<close>

subsection \<open>Header text\<close>




lemma py_strip_decomp:
  "\<exists>pre suf. s = pre @ py_strip s @ suf \<and> list_all isspace pre \<and> list_all isspace suf"
proof -
  let ?a = "takeWhile isspace s"
  let ?m = "dropWhile isspace s"
  let ?b = "rev (takeWhile isspace (rev ?m))"
  have "rev (takeWhile isspace (rev ?m) @ dropWhile isspace (rev ?m)) = ?m"
    by (simp only: takeWhile_dropWhile_id rev_rev_ident)
  then have "?m = py_strip s @ ?b" by (simp only: rev_append py_strip_def)
  then have "s = ?a @ py_strip s @ ?b" by (metis takeWhile_dropWhile_id)
  moreover have "list_all isspace ?a" by (simp add: list_all_iff) (meson set_takeWhileD)
  moreover have "list_all isspace ?b" by (simp add: list_all_iff) (meson set_takeWhileD)
  ultimately show ?thesis by blast
qed

subsection \<open>The dictionary built from the header cells\<close>

lemma map_entry_update: "AList.map_entry k f (AList.update k v al) = AList.update k (f v) al"
  by (induction al) auto

lemma map_entry_map_entry:
  "AList.map_entry k f (AList.map_entry k g al) = AList.map_entry k (\<lambda>x. f (g x)) al"
  by (induction al) auto

lemma map_entry_as_update:
  "k \<in> fst ` set al \<Longrightarrow> AList.map_entry k f al = AList.update k (f (the (map_of al k))) al"
  by (induction al) auto

lemma capture_eq: "capture role level acc = store role level [] acc"
proof (cases "role \<in> fst ` set acc")
  case True
  then obtain lvls where "map_of acc role = Some lvls"
    by (metis domD dom_map_of_conv_image_fst)
  then show ?thesis
    using True by (simp add: capture_def store_def levels_for_def map_entry_as_update)
next
  case False
  then have "map_of acc role = None"
    by (simp add: map_of_eq_None_iff)
  then show ?thesis
    using False by (simp add: capture_def store_def levels_for_def)
qed

lemma add_hero_store:
  "add_hero role level h (store role level hs acc) = store role level (hs @ [h]) acc"
  by (simp add: add_hero_def store_def map_entry_update)

lemma add_heroes_store:
  "add_heroes role level links (store role level hs acc) =
     (if None \<in> set links then Inl KeyError
      else Inr (store role level (hs @ List.map_filter (\<lambda>t. t) links) acc))"
proof (induction links arbitrary: hs)
  case Nil
  show ?case by (simp add: List.map_filter_simps)
next
  case (Cons t links)
  show ?case
  proof (cases t)
    case None
    then show ?thesis by simp
  next
    case (Some h)
    then show ?thesis
      using Cons.IH [of "hs @ [h]"] by (simp add: add_hero_store List.map_filter_simps)
  qed
qed

lemma roleheader_step_eq:
  "roleheader_step acc th =
     (case header_error th of Some e \<Rightarrow> Inl e | None \<Rightarrow> Inr (store_header acc th))"
  by (simp add: roleheader_step_def Let_def capture_eq add_heroes_store header_error_def
        store_header_def linked_def split: option.splits)

lemma first_error_Cons:
  "first_error (th # page) = (case header_error th of Some e \<Rightarrow> Some e | None \<Rightarrow> first_error page)"
  by (simp add: first_error_def List.map_filter_simps split: option.splits)

lemma first_error_Nil: "first_error [] = None"
  by (simp add: first_error_def List.map_filter_simps)

lemma scan_headers_eq:
  "scan_headers acc page =
     (case first_error page of Some e \<Rightarrow> Inl e | None \<Rightarrow> Inr (foldl store_header acc page))"
proof (induction page arbitrary: acc)
  case Nil
  show ?case by (simp add: first_error_Nil)
next
  case (Cons th page)
  show ?case
    by (cases "header_error th") (simp_all add: roleheader_step_eq first_error_Cons Cons.IH split: option.splits)
qed

lemma update_map_entry_other:
  "k \<noteq> k' \<Longrightarrow> AList.update k v (AList.map_entry k' g al) = AList.map_entry k' g (AList.update k v al)"
  by (induction al) auto

lemma update_map_entry_same:
  "AList.update k v (AList.map_entry k g al) = AList.update k v al"
  by (induction al) auto

lemma levels_for_store:
  "levels_for (store r l hs acc) r' =
     (if r' = r then AList.update l hs (levels_for acc r) else levels_for acc r')"
  by (simp add: levels_for_def store_def AList.update_conv')

lemma levels_for_map_entry:
  "g [] = [] \<Longrightarrow> levels_for (AList.map_entry r g acc) r' =
     (if r' = r then g (levels_for acc r) else levels_for acc r')"
  by (simp add: levels_for_def AList.map_of_map_entry split: option.splits)

text \<open>Two dictionaries that differ at most in the list stored under one role and level.\<close>

lemma store_differs:
  "\<exists>f'. store r' l' hs' (AList.map_entry r (AList.map_entry l f) acc) =
         AList.map_entry r (AList.map_entry l f') (store r' l' hs' acc)"
proof (cases "r' = r")
  case False
  then show ?thesis
    by (auto simp add: store_def levels_for_map_entry update_map_entry_other intro!: exI [of _ f])
next
  case r: True
  show ?thesis
  proof (cases "l' = l")
    case False
    have "store r l' hs' (AList.map_entry r (AList.map_entry l f) acc) =
          AList.map_entry r (AList.map_entry l f) (store r l' hs' acc)"
      using False
      by (simp add: store_def levels_for_map_entry update_map_entry_other update_map_entry_same
            map_entry_update)
    then show ?thesis using r by blast
  next
    case True
    have "store r l hs' (AList.map_entry r (AList.map_entry l f) acc) =
          AList.map_entry r (AList.map_entry l (\<lambda>_. hs')) (store r l hs' acc)"
      by (simp add: store_def levels_for_map_entry update_map_entry_same map_entry_update)
    then show ?thesis using r True by blast
  qed
qed

lemma foldl_store_differs:
  "\<exists>f'. foldl store_header (AList.map_entry r (AList.map_entry l f) acc) page =
         AList.map_entry r (AList.map_entry l f') (foldl store_header acc page)"
proof (induction page arbitrary: f acc)
  case Nil
  show ?case by auto
next
  case (Cons th page)
  obtain f' where "store_header (AList.map_entry r (AList.map_entry l f) acc) th =
      AList.map_entry r (AList.map_entry l f') (store_header acc th)"
    unfolding store_header_def using store_differs by blast
  then show ?case using Cons.IH [of f' "store_header acc th"] by simp
qed

lemma store_overrides:
  "store r l hs (AList.map_entry r (AList.map_entry l f) acc) = store r l hs acc"
  by (simp add: store_def levels_for_map_entry update_map_entry_same)

lemma store_as_map_entry:
  "store r l hs acc = AList.map_entry r (AList.map_entry l (\<lambda>_. hs)) (store r l [] acc)"
  by (simp add: store_def map_entry_update)

lemma earlier_list_irrelevant:
  "foldl store_header (store r l hs2 (foldl store_header (store r l hs1 acc) mid)) post =
   foldl store_header (store r l hs2 (foldl store_header (store r l [] acc) mid)) post"
proof -
  have "\<exists>f'. foldl store_header (store r l hs1 acc) mid =
      AList.map_entry r (AList.map_entry l f') (foldl store_header (store r l [] acc) mid)"
    using foldl_store_differs [of r l "\<lambda>_. hs1" "store r l [] acc" mid]
    by (simp add: store_as_map_entry [symmetric])
  then obtain f' where "foldl store_header (store r l hs1 acc) mid =
      AList.map_entry r (AList.map_entry l f') (foldl store_header (store r l [] acc) mid)"
    by blast
  then show ?thesis by (simp only: store_overrides)
qed

lemma heroes_at_store: "heroes_at (store r l hs acc) r l = Some hs"
  by (simp add: heroes_at_def levels_for_store AList.update_conv')

lemma first_error_append:
  "first_error (xs @ ys) = (case first_error xs of Some e \<Rightarrow> Some e | None \<Rightarrow> first_error ys)"
  by (induction xs) (simp_all add: first_error_Nil first_error_Cons split: option.splits)

text \<open>
  C9: when a later header cell yields the same role and level as an earlier one, capturing it
  resets the list of that role and level to empty, so that after the later cell the list
  holds that cell's heroes only; the heroes of the earlier cell are discarded: the exported
  table is the one of the page in which the earlier data cell links nobody.
\<close>

theorem later_header_resets_list:
  assumes "role_of (get_text earlier) = role_of (get_text later)"
      and "level_of (get_text earlier) = level_of (get_text later)"
      and "header_error earlier = None"
  shows "heroes_at (capture (role_of (get_text later)) (level_of (get_text later)) heroattributes)
           (role_of (get_text later)) (level_of (get_text later)) = Some [] \<and>
         (scan_headers [] (pre @ earlier # mid @ [later]) = Inr heroattributes' \<longrightarrow>
            heroes_at heroattributes' (role_of (get_text later)) (level_of (get_text later))
              = Some (linked later)) \<and>
         webscrape (pre @ earlier # mid @ later # post) =
           webscrape (pre @ earlier\<lparr>find_next_td := Some []\<rparr> # mid @ later # post)"
proof -
  let ?r = "role_of (get_text later)" and ?l = "level_of (get_text later)"
  let ?e = "earlier\<lparr>find_next_td := Some []\<rparr>"
  have a: "heroes_at (capture ?r ?l heroattributes) ?r ?l = Some []"
    by (simp add: capture_eq heroes_at_store)
  have b: "heroes_at heroattributes' ?r ?l = Some (linked later)"
    if "scan_headers [] (pre @ earlier # mid @ [later]) = Inr heroattributes'"
  proof -
    have "pre @ earlier # mid @ [later] = (pre @ earlier # mid) @ [later]" by simp
    then have "heroattributes' = store_header (foldl store_header [] (pre @ earlier # mid)) later"
      using that by (simp only: scan_headers_eq foldl_append) (simp split: option.splits)
    then show ?thesis by (simp add: store_header_def heroes_at_store)
  qed
  have e0: "header_error ?e = None" by (simp add: header_error_def)
  have fe: "first_error (pre @ earlier # mid @ later # post) =
            first_error (pre @ ?e # mid @ later # post)"
    using assms(3) e0 by (simp add: first_error_append first_error_Cons split: option.splits)
  have se: "store_header acc ?e = store (role_of (get_text earlier)) (level_of (get_text earlier)) [] acc"
    for acc
    by (simp add: store_header_def linked_def List.map_filter_simps)
  have f1: "foldl store_header [] (pre @ earlier # mid @ later # post) =
        foldl store_header (store ?r ?l (linked later)
          (foldl store_header (store ?r ?l (linked earlier) (foldl store_header [] pre)) mid)) post"
    using assms(1,2) by (simp add: store_header_def)
  have f2: "foldl store_header [] (pre @ ?e # mid @ later # post) =
        foldl store_header (store ?r ?l (linked later)
          (foldl store_header (store ?r ?l [] (foldl store_header [] pre)) mid)) post"
    using assms(1,2) by (simp add: se) (simp add: store_header_def)
  have "foldl store_header [] (pre @ earlier # mid @ later # post) =
        foldl store_header [] (pre @ ?e # mid @ later # post)"
    unfolding f1 f2 by (rule earlier_list_irrelevant)
  then have "scan_headers [] (pre @ earlier # mid @ later # post) =
             scan_headers [] (pre @ ?e # mid @ later # post)"
    by (simp only: scan_headers_eq fe)
  then have c: "webscrape (pre @ earlier # mid @ later # post) =
                webscrape (pre @ ?e # mid @ later # post)"
    by (simp add: webscrape_def pivoted_def)
  show ?thesis using a b c by blast
qed

lemma header_error_cell: "header_error (header_cell t names) = None"
  by (auto simp add: header_error_def header_cell_def)

lemma get_text_cell: "get_text (header_cell t names) = t"
  by (simp add: header_cell_def)

theorem later_header_resets_list_witness:
  "header_error (header_cell (carry 1) [ustr ''Hero A'']) = None \<and>
   webscrape [header_cell (carry 1) [ustr ''Hero A''], header_cell (carry 1) [ustr ''Hero B'']] =
   webscrape [header_cell (carry 1) [ustr ''Hero A'']\<lparr>find_next_td := Some []\<rparr>,
              header_cell (carry 1) [ustr ''Hero B'']]"
  using later_header_resets_list [of "header_cell (carry 1) [ustr ''Hero A'']" "header_cell (carry 1) [ustr ''Hero B'']"
      "[]" "[]" "[]" "[]" "[]"]
  by (simp add: header_error_cell get_text_cell)

subsection \<open>The rows built from the dictionary\<close>

lemma pivot_level_eq:
  "pivot_level role rows (level, heroes) = foldl place rows (map (\<lambda>hero. (role, level, hero)) heroes)"
  by (induction heroes arbitrary: rows) (simp_all add: pivot_level_def place_def)

lemma pivot_levels_eq:
  "foldl (pivot_level role) rows lvls =
     foldl place rows (concat (map (\<lambda>(level, heroes). map (\<lambda>hero. (role, level, hero)) heroes) lvls))"
proof (induction lvls arbitrary: rows)
  case Nil
  show ?case by simp
next
  case (Cons e lvls)
  obtain level heroes where e: "e = (level, heroes)" by (cases e)
  show ?case by (simp add: e pivot_level_eq Cons.IH)
qed

lemma triples_Cons:
  "triples ((role, lvls) # acc) =
     concat (map (\<lambda>(level, heroes). map (\<lambda>hero. (role, level, hero)) heroes) lvls) @ triples acc"
  by (simp add: triples_def)

lemma triples_Nil: "triples [] = []"
  by (simp add: triples_def)

lemma pivot_roles_eq:
  "foldl pivot_role (rows, roles) acc = (foldl place rows (triples acc), roles @ map fst acc)"
proof (induction acc arbitrary: rows roles)
  case Nil
  show ?case by (simp add: triples_Nil)
next
  case (Cons e acc)
  obtain role lvls where e: "e = (role, lvls)" by (cases e)
  have "pivot_role (rows, roles) (role, lvls) =
        (foldl place rows
           (concat (map (\<lambda>(level, heroes). map (\<lambda>hero. (role, level, hero)) heroes) lvls)),
         roles @ [role])"
    by (simp add: pivot_role_def pivot_levels_eq)
  then show ?case
    unfolding e by (simp add: Cons.IH triples_Cons)
qed

lemma pivot_eq: "pivot acc = (foldl place [] (triples acc), map fst acc)"
  by (simp add: pivot_def pivot_roles_eq)

lemma fill_eq: "fill roles rows = map (fill_all roles) rows"
proof (induction roles arbitrary: rows)
  case Nil
  show ?case by (simp add: fill_def fill_all_def)
next
  case (Cons r roles)
  have "fill (r # roles) rows = fill roles (map (fill_row r) rows)"
    by (simp add: fill_def)
  also have "\<dots> = map (fill_all roles) (map (fill_row r) rows)"
    by (rule Cons.IH)
  also have "\<dots> = map (fill_all (r # roles)) rows"
    by (simp add: fill_all_def)
  finally show ?case .
qed

lemma pivoted_eq:
  "pivoted page =
     (case first_error page of
        Some e \<Rightarrow> Inl e
      | None \<Rightarrow>
          Inr (map (fill_all (map fst (foldl store_header [] page)))
                 (foldl place [] (triples (foldl store_header [] page)))))"
  by (simp add: pivoted_def scan_headers_eq pivot_eq fill_eq split: option.splits)

lemma hero_key_update:
  "role \<noteq> Hero \<Longrightarrow> hero_key (AList.update role v dfrow) = hero_key dfrow"
  by (simp add: hero_key_def AList.update_conv')

lemma row_of_place_hero:
  "role \<noteq> Hero \<Longrightarrow>
   row_of (place_hero role level rows hero) h =
     (if h = hero
      then Some (AList.update role (Num level)
                   (case row_of rows hero of None \<Rightarrow> [(Hero, Str hero)] | Some dfrow \<Rightarrow> dfrow))
      else row_of rows h)"
proof (induction rows)
  case Nil
  then show ?case
    by (simp add: row_of_def hero_key_update) (simp add: hero_key_def)
next
  case (Cons dfrow rows)
  show ?case
  proof (cases "hero_key dfrow = Some (Str hero)")
    case True
    then have p: "place_hero role level (dfrow # rows) hero = AList.update role (Num level) dfrow # rows"
      by (simp add: hero_key_def)
    show ?thesis
      unfolding p using True Cons.prems by (auto simp add: row_of_def hero_key_update)
  next
    case False
    then have p: "place_hero role level (dfrow # rows) hero = dfrow # place_hero role level rows hero"
      by (simp add: hero_key_def)
    show ?thesis
      unfolding p using False Cons.IH [OF Cons.prems] by (auto simp add: row_of_def)
  qed
qed

lemma keys_place_hero:
  "role \<noteq> Hero \<Longrightarrow>
   map hero_key (place_hero role level rows hero) =
     (if Some (Str hero) \<in> set (map hero_key rows) then map hero_key rows
      else map hero_key rows @ [Some (Str hero)])"
proof (induction rows)
  case Nil
  then show ?case
    by (simp add: hero_key_update) (simp add: hero_key_def)
next
  case (Cons dfrow rows)
  show ?case
  proof (cases "hero_key dfrow = Some (Str hero)")
    case True
    then have p: "place_hero role level (dfrow # rows) hero = AList.update role (Num level) dfrow # rows"
      by (simp add: hero_key_def)
    show ?thesis
      unfolding p using True Cons.prems by (simp add: hero_key_update)
  next
    case False
    then have p: "place_hero role level (dfrow # rows) hero = dfrow # place_hero role level rows hero"
      by (simp add: hero_key_def)
    show ?thesis
      unfolding p using False Cons.IH [OF Cons.prems] by auto
  qed
qed

lemma row_content_fresh:
  "h \<notin> (\<lambda>t. snd (snd t)) ` set ts \<Longrightarrow> foldl (assign h) dfrow ts = dfrow"
  by (induction ts arbitrary: dfrow) (auto simp add: assign_def)

lemma row_content_snoc:
  "row_content (ts @ [(role, level, hero)]) h =
     (if hero = h then AList.update role (Num level) (row_content ts h) else row_content ts h)"
  by (simp add: row_content_def assign_def)

lemma row_of_foldl_place:
  "\<forall>t \<in> set ts. fst t \<noteq> Hero \<Longrightarrow>
   row_of (foldl place [] ts) h =
     (if h \<in> (\<lambda>t. snd (snd t)) ` set ts then Some (row_content ts h) else None)"
proof (induction ts arbitrary: h rule: rev_induct)
  case Nil
  show ?case by (simp add: row_of_def)
next
  case (snoc t ts)
  obtain role level hero where t: "t = (role, level, hero)" by (cases t)
  have r: "role \<noteq> Hero" using snoc.prems t by simp
  have "\<forall>t \<in> set ts. fst t \<noteq> Hero" using snoc.prems by simp
  note ih = snoc.IH [OF this]
  have f: "foldl place [] (ts @ [(role, level, hero)]) = place_hero role level (foldl place [] ts) hero"
    by (simp add: place_def)
  show ?case
  proof (cases "h = hero")
    case True
    show ?thesis
    proof (cases "hero \<in> (\<lambda>t. snd (snd t)) ` set ts")
      case True
      then show ?thesis
        using \<open>h = hero\<close> unfolding t f
        by (simp add: row_of_place_hero [OF r] ih row_content_snoc)
    next
      case False
      then have "row_content ts hero = [(Hero, Str hero)]"
        by (simp add: row_content_def row_content_fresh)
      then show ?thesis
        using \<open>h = hero\<close> False unfolding t f
        by (simp add: row_of_place_hero [OF r] ih row_content_snoc)
    qed
  next
    case False
    then show ?thesis
      unfolding t f by (simp add: row_of_place_hero [OF r] ih row_content_snoc)
  qed
qed

lemma hero_keys_foldl_place:
  "\<forall>t \<in> set ts. fst t \<noteq> Hero \<Longrightarrow>
   distinct (map hero_key (foldl place [] ts)) \<and>
   set (map hero_key (foldl place [] ts)) = (\<lambda>t. Some (Str (snd (snd t)))) ` set ts"
proof (induction ts rule: rev_induct)
  case Nil
  show ?case by simp
next
  case (snoc t ts)
  obtain role level hero where t: "t = (role, level, hero)" by (cases t)
  have r: "role \<noteq> Hero" using snoc.prems t by simp
  have "\<forall>t \<in> set ts. fst t \<noteq> Hero" using snoc.prems by simp
  note ih = snoc.IH [OF this]
  have f: "foldl place [] (ts @ [(role, level, hero)]) = place_hero role level (foldl place [] ts) hero"
    by (simp add: place_def)
  show ?case
    unfolding t f keys_place_hero [OF r] using ih by auto
qed

lemma find_distinct_key:
  "distinct (map f xs) \<Longrightarrow> x \<in> set xs \<Longrightarrow> find (\<lambda>y. f y = f x) xs = Some x"
  by (induction xs) auto

lemma rows_of_foldl_place:
  assumes "\<forall>t \<in> set ts. fst t \<noteq> Hero" and "dfrow \<in> set (foldl place [] ts)"
  shows "\<exists>h \<in> (\<lambda>t. snd (snd t)) ` set ts. hero_key dfrow = Some (Str h) \<and> dfrow = row_content ts h"
proof -
  from hero_keys_foldl_place [OF assms(1)]
  have d: "distinct (map hero_key (foldl place [] ts))"
    and s: "set (map hero_key (foldl place [] ts)) = (\<lambda>t. Some (Str (snd (snd t)))) ` set ts"
    by simp_all
  have "hero_key dfrow \<in> set (map hero_key (foldl place [] ts))"
    using assms(2) by simp
  then obtain t where t: "t \<in> set ts" "hero_key dfrow = Some (Str (snd (snd t)))"
    unfolding s by blast
  let ?h = "snd (snd t)"
  have "find (\<lambda>y. hero_key y = hero_key dfrow) (foldl place [] ts) = Some dfrow"
    using d assms(2) by (rule find_distinct_key)
  then have "row_of (foldl place [] ts) ?h = Some dfrow"
    by (simp add: row_of_def t(2))
  then have "dfrow = row_content ts ?h"
    using t(1) by (simp add: row_of_foldl_place [OF assms(1)] split: if_splits)
  then show ?thesis using t by blast
qed

lemma last_level_snoc:
  "last_level (ts @ [(role, level, hero)]) k h =
     (if hero = h \<and> role = k then Some level else last_level ts k h)"
  by (simp add: last_level_def)

lemma map_of_row_content:
  "\<forall>t \<in> set ts. fst t \<noteq> Hero \<Longrightarrow>
   map_of (row_content ts h) k =
     (if k = Hero then Some (Str h) else map_option Num (last_level ts k h))"
proof (induction ts rule: rev_induct)
  case Nil
  show ?case by (simp add: row_content_def last_level_def)
next
  case (snoc t ts)
  obtain role level hero where t: "t = (role, level, hero)" by (cases t)
  have r: "role \<noteq> Hero" using snoc.prems t by simp
  have "\<forall>t \<in> set ts. fst t \<noteq> Hero" using snoc.prems by simp
  note ih = snoc.IH [OF this]
  show ?case
    unfolding t using r ih
    by (auto simp add: row_content_snoc last_level_snoc AList.update_conv')
qed

lemma map_of_fill_row:
  "map_of (fill_row role dfrow) k =
     (if k = role \<and> map_of dfrow role = None then Some (Num 0) else map_of dfrow k)"
  by (auto simp add: fill_row_def AList.update_conv' map_of_eq_None_iff)

lemma map_of_fill_all:
  "map_of (fill_all roles dfrow) k =
     (if k \<in> set roles \<and> map_of dfrow k = None then Some (Num 0) else map_of dfrow k)"
proof (induction roles arbitrary: dfrow)
  case Nil
  show ?case by (simp add: fill_all_def)
next
  case (Cons r roles)
  have "fill_all (r # roles) dfrow = fill_all roles (fill_row r dfrow)"
    by (simp add: fill_all_def)
  then show ?case
    by (auto simp add: Cons.IH map_of_fill_row)
qed

lemma triples_roles: "t \<in> set (triples acc) \<Longrightarrow> fst t \<in> fst ` set acc"
  by (force simp add: triples_def)

lemma last_level_other_role:
  "\<forall>t \<in> set ts. fst t \<noteq> r \<Longrightarrow>
   foldl (\<lambda>v t. case t of (role', level, hero') \<Rightarrow>
      if hero' = h \<and> role' = r then Some level else v) v ts = v"
  by (induction ts arbitrary: v) auto

lemma last_level_one_level:
  "foldl (\<lambda>v t. case t of (role', level, hero') \<Rightarrow>
      if hero' = h \<and> role' = r then Some level else v) v (map (\<lambda>hero. (r, l, hero)) hs) =
   (if h \<in> set hs then Some l else v)"
  by (induction hs arbitrary: v) auto

lemma last_level_one_role:
  "foldl (\<lambda>v t. case t of (role', level, hero') \<Rightarrow>
      if hero' = h \<and> role' = r then Some level else v) v
      (concat (map (\<lambda>(level, heroes). map (\<lambda>hero. (r, level, hero)) heroes) lvls)) =
   foldl (\<lambda>v e. case e of (level, heroes) \<Rightarrow> if h \<in> set heroes then Some level else v) v lvls"
proof (induction lvls arbitrary: v)
  case Nil
  show ?case by simp
next
  case (Cons e lvls)
  obtain l hs where e: "e = (l, hs)" by (cases e)
  show ?case
    unfolding e by (simp add: last_level_one_level Cons.IH)
qed

lemma block_roles:
  "t \<in> set (concat (map (\<lambda>(level, heroes). map (\<lambda>hero. (r', level, hero)) heroes) lvls)) \<Longrightarrow>
   fst t = r'"
  by auto

lemma last_level_triples:
  "distinct (map fst acc) \<Longrightarrow> last_level (triples acc) r h = level_in (levels_for acc r) h"
proof (induction acc)
  case Nil
  show ?case by (simp add: last_level_def triples_Nil level_in_def levels_for_def)
next
  case (Cons e acc)
  obtain r' lvls where e: "e = (r', lvls)" by (cases e)
  have d: "distinct (map fst acc)" and n: "r' \<notin> fst ` set acc"
    using Cons.prems e by simp_all
  let ?F = "\<lambda>v t. case t of (role', level, hero') \<Rightarrow>
      if hero' = h \<and> role' = r then Some level else v"
  let ?B = "concat (map (\<lambda>(level, heroes). map (\<lambda>hero. (r', level, hero)) heroes) lvls)"
  have ll: "last_level (triples (e # acc)) r h = foldl ?F (foldl ?F None ?B) (triples acc)"
    unfolding e by (simp add: last_level_def triples_Cons)
  show ?case
  proof (cases "r' = r")
    case True
    have "\<forall>t \<in> set (triples acc). fst t \<noteq> r"
    proof
      fix t assume "t \<in> set (triples acc)"
      then have "fst t \<in> fst ` set acc" by (rule triples_roles)
      with n True show "fst t \<noteq> r" by auto
    qed
    then have "foldl ?F (foldl ?F None ?B) (triples acc) = foldl ?F None ?B"
      by (rule last_level_other_role)
    also have "\<dots> = level_in lvls h"
      unfolding True level_in_def by (rule last_level_one_role)
    finally show ?thesis
      unfolding ll using True by (simp add: e levels_for_def)
  next
    case False
    have "\<forall>t \<in> set ?B. fst t \<noteq> r"
    proof
      fix t assume "t \<in> set ?B"
      then have "fst t = r'" by (rule block_roles)
      with False show "fst t \<noteq> r" by simp
    qed
    then have "foldl ?F None ?B = None"
      by (rule last_level_other_role)
    then have "last_level (triples (e # acc)) r h = last_level (triples acc) r h"
      unfolding ll by (simp add: last_level_def)
    then show ?thesis
      using Cons.IH [OF d] False by (simp add: e levels_for_def)
  qed
qed

lemma distinct_store: "distinct (map fst acc) \<Longrightarrow> distinct (map fst (store r l hs acc))"
  by (simp add: store_def AList.distinct_update)

lemma distinct_foldl_store_header:
  "distinct (map fst acc) \<Longrightarrow> distinct (map fst (foldl store_header acc page))"
  by (induction page arbitrary: acc) (simp_all add: store_header_def distinct_store)

lemma keys_store: "fst ` set (store r l hs acc) = insert r (fst ` set acc)"
  by (simp add: store_def AList.dom_update)

lemma keys_foldl_store_header:
  "fst ` set (foldl store_header acc page) = fst ` set acc \<union> (\<lambda>th. role_of (get_text th)) ` set page"
  by (induction page arbitrary: acc) (auto simp add: store_header_def keys_store)

lemma levels_for_foldl_store_header:
  "levels_for (foldl store_header acc page) r =
     foldl (\<lambda>lvls th. AList.update (level_of (get_text th)) (linked th) lvls) (levels_for acc r)
       (filter (\<lambda>th. role_of (get_text th) = r) page)"
  by (induction page arbitrary: acc) (simp_all add: store_header_def levels_for_store)

end
